theory Spec2Isabelle
  imports Complex_Main
begin

section \<open>JavaScript values\<close>

text \<open>
  The goal engine of \<^verbatim>\<open>src/js/utils.js\<close> is JavaScript: its arguments and the fields of a
  goal document are dynamically typed. The primitive values are modelled by \<open>jsval\<close>
  (objects and arrays are not modelled). A Number is \<open>NaN\<close>, an infinity or a finite value;
  finite values are exact rationals, so the rounding of IEEE doubles and the overflow of a
  finite sum to Infinity are abstracted away, and \<open>-0\<close> is identified with \<open>0\<close> (both are
  falsy, both are \<open>\<le> 0\<close>, and both are neutral for \<open>+\<close>).
\<close>

datatype jsnum = NaN | PosInf | NegInf | Fin rat

datatype jsval = JUndefined | JNull | JBool bool | JNum jsnum | JStr string

datatype jstype = TUndefined | TObject | TBoolean | TNumber | TString

text \<open>\<^verbatim>\<open>typeof v\<close>.\<close>

fun typeof :: "jsval \<Rightarrow> jstype" where
  "typeof JUndefined = TUndefined"
| "typeof JNull = TObject"
| "typeof (JBool b) = TBoolean"
| "typeof (JNum n) = TNumber"
| "typeof (JStr s) = TString"

text \<open>ToBoolean: what \<^verbatim>\<open>!v\<close> and \<^verbatim>\<open>v || d\<close> test.\<close>

fun truthy :: "jsval \<Rightarrow> bool" where
  "truthy JUndefined = False"
| "truthy JNull = False"
| "truthy (JBool b) = b"
| "truthy (JNum NaN) = False"
| "truthy (JNum (Fin r)) = (r \<noteq> 0)"
| "truthy (JNum PosInf) = True"
| "truthy (JNum NegInf) = True"
| "truthy (JStr s) = (s \<noteq> [])"

text \<open>\<^verbatim>\<open>a || b\<close> on values.\<close>

definition js_or :: "jsval \<Rightarrow> jsval \<Rightarrow> jsval" where
  "js_or a b = (if truthy a then a else b)"

text \<open>\<^verbatim>\<open>n <= 0\<close> and \<^verbatim>\<open>isNaN(n)\<close> for a Number \<open>n\<close>.\<close>

fun num_le0 :: "jsnum \<Rightarrow> bool" where
  "num_le0 NaN = False"
| "num_le0 PosInf = False"
| "num_le0 NegInf = True"
| "num_le0 (Fin r) = (r \<le> 0)"

fun isNaN :: "jsnum \<Rightarrow> bool" where
  "isNaN NaN = True"
| "isNaN PosInf = False"
| "isNaN NegInf = False"
| "isNaN (Fin r) = False"

text \<open>Number addition: NaN is absorbing, opposite infinities give NaN.\<close>

fun num_add :: "jsnum \<Rightarrow> jsnum \<Rightarrow> jsnum" where
  "num_add NaN y = NaN"
| "num_add PosInf NaN = NaN"
| "num_add PosInf NegInf = NaN"
| "num_add PosInf PosInf = PosInf"
| "num_add PosInf (Fin b) = PosInf"
| "num_add NegInf NaN = NaN"
| "num_add NegInf PosInf = NaN"
| "num_add NegInf NegInf = NegInf"
| "num_add NegInf (Fin b) = NegInf"
| "num_add (Fin a) NaN = NaN"
| "num_add (Fin a) PosInf = PosInf"
| "num_add (Fin a) NegInf = NegInf"
| "num_add (Fin a) (Fin b) = Fin (a + b)"

text \<open>
  ToNumber on the primitives that are not strings (the \<open>+\<close> operator below concatenates as
  soon as one operand is a string, so it never converts a string to a number; the last
  equation is there for totality only).
\<close>

fun ToNumber :: "jsval \<Rightarrow> jsnum" where
  "ToNumber JUndefined = NaN"
| "ToNumber JNull = Fin 0"
| "ToNumber (JBool b) = (if b then Fin 1 else Fin 0)"
| "ToNumber (JNum n) = n"
| "ToNumber (JStr s) = NaN"

text \<open>
  ToString, that is \<^verbatim>\<open>String(v)\<close>. The decimal rendering of a Number is a function of the
  JavaScript runtime; it is taken as the parameter \<open>nts\<close>.
\<close>

fun ToString :: "(jsnum \<Rightarrow> string) \<Rightarrow> jsval \<Rightarrow> string" where
  "ToString nts JUndefined = ''undefined''"
| "ToString nts JNull = ''null''"
| "ToString nts (JBool b) = (if b then ''true'' else ''false'')"
| "ToString nts (JNum n) = nts n"
| "ToString nts (JStr s) = s"

text \<open>The binary \<^verbatim>\<open>+\<close> on primitives.\<close>

fun js_plus :: "(jsnum \<Rightarrow> string) \<Rightarrow> jsval \<Rightarrow> jsval \<Rightarrow> jsval" where
  "js_plus nts (JStr a) y = JStr (a @ ToString nts y)"
| "js_plus nts x (JStr b) = JStr (ToString nts x @ b)"
| "js_plus nts x y = JNum (num_add (ToNumber x) (ToNumber y))"

section \<open>Strings\<close>

text \<open>
  A string is a list of code units; the model covers the code units below 256 (Latin-1).
  \<^verbatim>\<open>toLowerCase\<close> maps A-Z and the accented capitals of Latin-1 to their small letters;
  \<^verbatim>\<open>trim\<close> removes the white space and line terminators of ECMAScript at both ends
  (TAB, LF, VT, FF, CR, SP, NBSP in this range).
\<close>

definition lowerChar :: "char \<Rightarrow> char" where
  "lowerChar c =
     (let n = (of_char c :: nat)
      in if (65 \<le> n \<and> n \<le> 90) \<or> (192 \<le> n \<and> n \<le> 222 \<and> n \<noteq> 215)
         then char_of (n + 32) else c)"

definition toLowerCase :: "string \<Rightarrow> string" where
  "toLowerCase s = map lowerChar s"

definition isWhiteSpace :: "char \<Rightarrow> bool" where
  "isWhiteSpace c =
     (let n = (of_char c :: nat)
      in n = 9 \<or> n = 10 \<or> n = 11 \<or> n = 12 \<or> n = 13 \<or> n = 32 \<or> n = 160)"

definition trim :: "string \<Rightarrow> string" where
  "trim s = rev (dropWhile isWhiteSpace (rev (dropWhile isWhiteSpace s)))"

section \<open>Dates\<close>

text \<open>
  A \<^verbatim>\<open>Date\<close> is its time value: milliseconds since the epoch, an integer. The methods
  used by the source read and write the fields of local time. Local time is modelled with
  a fixed offset \<open>z\<close> from UTC (in milliseconds): no daylight-saving transitions.
\<close>

definition msPerDay :: int where
  "msPerDay = 86400000"

definition Day :: "int \<Rightarrow> int" where
  "Day t = t div msPerDay"

definition TimeWithinDay :: "int \<Rightarrow> int" where
  "TimeWithinDay t = t mod msPerDay"

definition MakeDate :: "int \<Rightarrow> int \<Rightarrow> int" where
  "MakeDate day time = day * msPerDay + time"

text \<open>Day 0 (1 January 1970) was a Thursday; 0 is Sunday.\<close>

definition WeekDay :: "int \<Rightarrow> int" where
  "WeekDay t = (Day t + 4) mod 7"

text \<open>
  The day of the month (1..31) of a time value, in the proleptic Gregorian calendar,
  computed from the day number by the usual era / year-of-era / day-of-year arithmetic
  on years that start on 1 March.
\<close>

definition DateFromTime :: "int \<Rightarrow> int" where
  "DateFromTime t =
     (let z = Day t + 719468;
          era = z div 146097;
          doe = z - era * 146097;
          yoe = (doe - doe div 1460 + doe div 36524 - doe div 146096) div 365;
          doy = doe - (365 * yoe + yoe div 4 - yoe div 100);
          mp = (5 * doy + 2) div 153
      in doy - (153 * mp + 2) div 5 + 1)"

definition LocalTime :: "int \<Rightarrow> int \<Rightarrow> int" where
  "LocalTime z t = t + z"

definition UTC :: "int \<Rightarrow> int \<Rightarrow> int" where
  "UTC z t = t - z"

text \<open>\<^verbatim>\<open>d.getDay()\<close>, \<^verbatim>\<open>d.getDate()\<close>.\<close>

definition getDay :: "int \<Rightarrow> int \<Rightarrow> int" where
  "getDay z d = WeekDay (LocalTime z d)"

definition getDate :: "int \<Rightarrow> int \<Rightarrow> int" where
  "getDate z d = DateFromTime (LocalTime z d)"

text \<open>
  \<^verbatim>\<open>d.setDate(dt)\<close> keeps the year, the month and the time within the day of \<open>d\<close> and
  sets the day of the month to \<open>dt\<close>; a \<open>dt\<close> outside the month counts on into the
  neighbouring months (MakeDay): the new day number is the day number of the first of
  the month, \<open>Day t - DateFromTime t + 1\<close>, plus \<open>dt - 1\<close>.
\<close>

definition setDate :: "int \<Rightarrow> int \<Rightarrow> int \<Rightarrow> int" where
  "setDate z d dt =
     (let t = LocalTime z d
      in UTC z (MakeDate (Day t - DateFromTime t + 1 + (dt - 1)) (TimeWithinDay t)))"

text \<open>\<^verbatim>\<open>d.setHours(0, 0, 0, 0)\<close>.\<close>

definition setHours0 :: "int \<Rightarrow> int \<Rightarrow> int" where
  "setHours0 z d = UTC z (MakeDate (Day (LocalTime z d)) 0)"

text \<open>The three window calculators of the source.\<close>

definition getStartOfDay :: "int \<Rightarrow> int \<Rightarrow> int" where
  "getStartOfDay z date = setHours0 z date"

definition getStartOfWeek :: "int \<Rightarrow> int \<Rightarrow> int" where
  "getStartOfWeek z date =
     (let day = getDay z date;
          diff = getDate z date - day + (if day = 0 then - 6 else 1)
      in setHours0 z (setDate z date diff))"

definition getStartOfMonth :: "int \<Rightarrow> int \<Rightarrow> int" where
  "getStartOfMonth z date = setHours0 z (setDate z date 1)"

section \<open>Goal documents and the store\<close>

text \<open>
  A goal document of the collection \<^verbatim>\<open>users/{uid}/goals\<close> has the fields of the store
  schema, and \<open>gid\<close> is its id in the collection (the ids of a collection are pairwise
  different, which the theorems state as \<open>distinct (map gid (goalsColl s))\<close>). A field may
  hold any primitive value or be absent (\<open>JUndefined\<close>). \<open>createdAt\<close> is the server timestamp
  that \<^verbatim>\<open>addGoal\<close> writes, in milliseconds: the query of \<^verbatim>\<open>getGoals\<close> orders by it and
  returns the documents that have it. \<open>lastReset\<close> is absent (\<open>None\<close>) or a server timestamp.
  The record is polymorphic in \<open>lastReset\<close>: it is a timestamp in a stored document and, in
  the objects that \<^verbatim>\<open>getGoals\<close> returns, whatever \<^verbatim>\<open>checkGoalNeedsReset\<close> can meet
  there.
\<close>

datatype tsval = NoField | Timestamp int | JSDate int

record 'r goal_rec =
  gid :: string
  name :: jsval
  category :: jsval
  gtype :: jsval
  target :: jsval
  current :: jsval
  createdAt :: int
  lastReset :: 'r

type_synonym goaldoc = "(int option) goal_rec"

type_synonym goal = "tsval goal_rec"

text \<open>
  The data of an \<^verbatim>\<open>updateDoc\<close>: the fields it sets. The engine writes \<open>current\<close> and
  \<open>lastReset\<close> only; \<^verbatim>\<open>serverTimestamp()\<close> is logged as the instant the server puts in.
\<close>

datatype patch = Patch (pcurrent: "jsval option") (plastReset: "int option")

datatype call = GetDocs | AddDoc string | UpdateDoc string patch

datatype error = NotAuthenticated | StoreReadError | StoreWriteError

text \<open>
  The state: the signed-in user (\<^verbatim>\<open>auth.currentUser?.uid\<close>), the goal collection of that
  user in the order of the query of \<^verbatim>\<open>getGoals\<close> (latest \<open>createdAt\<close> first), the store
  calls issued so far, and what was written with \<^verbatim>\<open>console.error\<close> (the lines of
  \<^verbatim>\<open>console.log\<close> are left out).
\<close>

record store =
  currentUser :: "string option"
  goalsColl :: "goaldoc list"
  calls :: "call list"
  console_error :: "string list"

text \<open>
  The environment of one engine call, which is taken to happen at one instant: \<open>tza\<close> the
  offset of local time, \<open>now\<close> what \<^verbatim>\<open>new Date()\<close> reads on the client, \<open>srv\<close> what the
  server substitutes for \<^verbatim>\<open>serverTimestamp()\<close>, \<open>fails\<close> which store calls the store
  rejects (given the calls made before), \<open>num2str\<close> the rendering of Numbers.
\<close>

record env =
  tza :: int
  now :: int
  srv :: int
  fails :: "call list \<Rightarrow> call \<Rightarrow> bool"
  num2str :: "jsnum \<Rightarrow> string"

definition applyPatch :: "patch \<Rightarrow> goaldoc \<Rightarrow> goaldoc" where
  "applyPatch p d =
     d\<lparr>current := (case pcurrent p of None \<Rightarrow> current d | Some v \<Rightarrow> v),
       lastReset := (case plastReset p of None \<Rightarrow> lastReset d | Some t \<Rightarrow> Some t)\<rparr>"

text \<open>
  \<^verbatim>\<open>updateDoc(doc(db, 'users', uid, 'goals', goalId), data)\<close>: the promise rejects when
  the store rejects the write or the document does not exist; otherwise the fields of the
  one document with that id are set.
\<close>

definition updateDoc :: "env \<Rightarrow> string \<Rightarrow> patch \<Rightarrow> store \<Rightarrow> (error + unit) \<times> store" where
  "updateDoc E goalId data s =
     (let s1 = s\<lparr>calls := calls s @ [UpdateDoc goalId data]\<rparr>
      in if fails E (calls s) (UpdateDoc goalId data) \<or> goalId \<notin> set (map gid (goalsColl s))
         then (Inl StoreWriteError, s1)
         else (Inr (),
               s1\<lparr>goalsColl := map (\<lambda>d. if gid d = goalId then applyPatch data d else d)
                                   (goalsColl s)\<rparr>))"

section \<open>Goals operations\<close>

text \<open>\<^verbatim>\<open>addGoal(goal)\<close>; the id of the new document is chosen by the store (\<open>newId\<close>).\<close>

definition addGoal :: "env \<Rightarrow> string \<Rightarrow> goaldoc \<Rightarrow> store \<Rightarrow> (error + string) \<times> store" where
  "addGoal E newId g s =
     (case currentUser s of
        None \<Rightarrow> (Inl NotAuthenticated, s)
      | Some uid \<Rightarrow>
          (let goalData = g\<lparr>gid := newId, current := JNum (Fin 0),
                             createdAt := srv E, lastReset := Some (srv E)\<rparr>;
               s1 = s\<lparr>calls := calls s @ [AddDoc newId]\<rparr>
           in if fails E (calls s) (AddDoc newId) then (Inl StoreWriteError, s1)
              else (Inr newId, s1\<lparr>goalsColl := goalData # goalsColl s\<rparr>)))"

text \<open>
  The object \<^verbatim>\<open>getGoals\<close> builds from a document:
  \<^verbatim>\<open>{ id: doc.id, ...doc.data(), lastReset: doc.data().lastReset?.toDate() || new Date() }\<close>.
\<close>

definition toGoal :: "env \<Rightarrow> goaldoc \<Rightarrow> goal" where
  "toGoal E d =
     \<lparr>gid = gid d, name = name d, category = category d, gtype = gtype d,
      target = target d, current = current d, createdAt = createdAt d,
      lastReset = JSDate (case lastReset d of Some t \<Rightarrow> t | None \<Rightarrow> now E)\<rparr>"

definition getGoals :: "env \<Rightarrow> store \<Rightarrow> (error + goal list) \<times> store" where
  "getGoals E s =
     (case currentUser s of
        None \<Rightarrow> (Inr [], s)
      | Some uid \<Rightarrow>
          (let s1 = s\<lparr>calls := calls s @ [GetDocs]\<rparr>
           in if fails E (calls s) GetDocs then (Inl StoreReadError, s1)
              else (Inr (map (toGoal E) (goalsColl s)), s1)))"

definition updateGoal :: "env \<Rightarrow> string \<Rightarrow> patch \<Rightarrow> store \<Rightarrow> (error + bool) \<times> store" where
  "updateGoal E goalId data s =
     (case currentUser s of
        None \<Rightarrow> (Inr False, s)
      | Some uid \<Rightarrow>
          (case updateDoc E goalId data s of
             (Inl e, s1) \<Rightarrow> (Inl e, s1)
           | (Inr u, s1) \<Rightarrow> (Inr True, s1)))"

text \<open>\<^verbatim>\<open>checkGoalNeedsReset(goal)\<close>.\<close>

definition checkGoalNeedsReset :: "env \<Rightarrow> goal \<Rightarrow> bool" where
  "checkGoalNeedsReset E goal =
     (let lastReset' = (case lastReset goal of
                          JSDate t \<Rightarrow> t
                        | Timestamp t \<Rightarrow> t
                        | NoField \<Rightarrow> now E)
      in if gtype goal = JStr ''daily''
           then getStartOfDay (tza E) lastReset' < getStartOfDay (tza E) (now E)
         else if gtype goal = JStr ''weekly''
           then getStartOfWeek (tza E) lastReset' < getStartOfWeek (tza E) (now E)
         else if gtype goal = JStr ''monthly''
           then getStartOfMonth (tza E) lastReset' < getStartOfMonth (tza E) (now E)
         else False)"

definition resetGoal :: "env \<Rightarrow> string \<Rightarrow> store \<Rightarrow> (error + unit) \<times> store" where
  "resetGoal E goalId s =
     (case currentUser s of
        None \<Rightarrow> (Inr (), s)
      | Some uid \<Rightarrow> updateDoc E goalId (Patch (Some (JNum (Fin 0))) (Some (srv E))) s)"

text \<open>
  The normalised category of a goal:
  \<^verbatim>\<open>String(goal.category || '').toLowerCase().trim()\<close>.
\<close>

definition categoryString :: "env \<Rightarrow> 'r goal_rec \<Rightarrow> string" where
  "categoryString E goal = ToString (num2str E) (js_or (category goal) (JStr []))"

definition goalCat :: "env \<Rightarrow> goal \<Rightarrow> string" where
  "goalCat E goal = trim (toLowerCase (categoryString E goal))"

text \<open>
  The loop of \<^verbatim>\<open>updateGoalsProgress\<close> over the fetched goals. A rejected promise of an
  awaited call leaves the loop and the function (there is no \<^verbatim>\<open>try\<close> around it): the
  result is \<open>Inl\<close> and the goals left are not visited.
\<close>

fun progressLoop :: "env \<Rightarrow> jsval \<Rightarrow> string \<Rightarrow> goal list \<Rightarrow> store \<Rightarrow> (error + unit) \<times> store" where
  "progressLoop E amount targetCategory [] s = (Inr (), s)"
| "progressLoop E amount targetCategory (goal # goals) s =
     (if goalCat E goal \<noteq> targetCategory then progressLoop E amount targetCategory goals s
      else
        (let shouldReset = checkGoalNeedsReset E goal
         in case (if shouldReset then resetGoal E (gid goal) s else (Inr (), s)) of
              (Inl e, s1) \<Rightarrow> (Inl e, s1)
            | (Inr u, s1) \<Rightarrow>
                (let oldValue = (if shouldReset then JNum (Fin 0)
                                 else js_or (current goal) (JNum (Fin 0)));
                     newValue = js_plus (num2str E) oldValue amount
                 in case updateGoal E (gid goal) (Patch (Some newValue) None) s1 of
                      (Inl e, s2) \<Rightarrow> (Inl e, s2)
                    | (Inr b, s2) \<Rightarrow> progressLoop E amount targetCategory goals s2)))"

text \<open>
  \<^verbatim>\<open>updateGoalsProgress(amount, category)\<close>, the \<open>applyEarnings\<close> of the specification.
  The comparison \<^verbatim>\<open>amount <= 0\<close> and \<^verbatim>\<open>isNaN(amount)\<close> are reached for a Number only.
\<close>

definition updateGoalsProgress :: "env \<Rightarrow> jsval \<Rightarrow> jsval \<Rightarrow> store \<Rightarrow> (error + unit) \<times> store" where
  "updateGoalsProgress E amount category' s =
     (if \<not> truthy category' \<or> typeof category' \<noteq> TString
        then (Inr (), s\<lparr>console_error := console_error s @ [''ERRO: categoria invalida:'']\<rparr>)
      else if typeof amount \<noteq> TNumber
              \<or> (case amount of JNum n \<Rightarrow> num_le0 n \<or> isNaN n | _ \<Rightarrow> True)
        then (Inr (), s\<lparr>console_error := console_error s @ [''ERRO: valor invalido:'']\<rparr>)
      else
        (let targetCategory = trim (toLowerCase (ToString (num2str E) category'))
         in case getGoals E s of
              (Inl e, s1) \<Rightarrow> (Inl e, s1)
            | (Inr goals, s1) \<Rightarrow> progressLoop E amount targetCategory goals s1))"

text \<open>\<^verbatim>\<open>checkAndResetGoals()\<close>, the \<open>sweepResets\<close> of the specification.\<close>

fun resetLoop :: "env \<Rightarrow> goal list \<Rightarrow> store \<Rightarrow> (error + unit) \<times> store" where
  "resetLoop E [] s = (Inr (), s)"
| "resetLoop E (goal # goals) s =
     (if checkGoalNeedsReset E goal
      then (case resetGoal E (gid goal) s of
              (Inl e, s1) \<Rightarrow> (Inl e, s1)
            | (Inr u, s1) \<Rightarrow> resetLoop E goals s1)
      else resetLoop E goals s)"

definition checkAndResetGoals :: "env \<Rightarrow> store \<Rightarrow> (error + unit) \<times> store" where
  "checkAndResetGoals E s =
     (case getGoals E s of
        (Inl e, s1) \<Rightarrow> (Inl e, s1)
      | (Inr goals, s1) \<Rightarrow> resetLoop E goals s1)"

section \<open>The words of the specification\<close>

text \<open>
  The specification speaks of a finite positive amount, of a non-empty string category,
  of a category normalised by trimming and then lower-casing, and of a window selected by
  the type of the goal. These definitions follow its words; the theorems below compare
  them with the code.
\<close>

fun spec_validAmount :: "jsval \<Rightarrow> bool" where
  "spec_validAmount (JNum (Fin r)) = (0 < r)"
| "spec_validAmount v = False"

fun spec_validCategory :: "jsval \<Rightarrow> bool" where
  "spec_validCategory (JStr s) = (s \<noteq> [])"
| "spec_validCategory v = False"




text \<open>The invariant of the data model: \<open>current\<close> is a Number and \<open>current \<ge> 0\<close>.\<close>

fun spec_nonneg :: "jsval \<Rightarrow> bool" where
  "spec_nonneg (JNum (Fin r)) = (0 \<le> r)"
| "spec_nonneg (JNum PosInf) = True"
| "spec_nonneg v = False"

section \<open>End states, store calls and relations used in the statements\<close>


text \<open>
  What the engine leaves in a document whose category matches, when every write succeeds:
  the end state of \<^verbatim>\<open>resetGoal\<close> followed by \<^verbatim>\<open>updateGoal\<close> when a reset is due, of
  \<^verbatim>\<open>updateGoal\<close> alone otherwise; and the writes it issues for that.
\<close>

definition accrued :: "env \<Rightarrow> jsval \<Rightarrow> goaldoc \<Rightarrow> goaldoc" where
  "accrued E amount d =
     (if checkGoalNeedsReset E (toGoal E d)
      then d\<lparr>current := js_plus (num2str E) (JNum (Fin 0)) amount, lastReset := Some (srv E)\<rparr>
      else d\<lparr>current := js_plus (num2str E) (js_or (current d) (JNum (Fin 0))) amount\<rparr>)"






definition swept :: "env \<Rightarrow> goaldoc \<Rightarrow> goaldoc" where
  "swept E d =
     (if checkGoalNeedsReset E (toGoal E d)
      then d\<lparr>current := JNum (Fin 0), lastReset := Some (srv E)\<rparr> else d)"

text \<open>
  The invariant of the data model on a store, and \<open>lastReset\<close> not decreasing from a
  collection to a later one, document by document (an absent \<open>lastReset\<close> is below any
  timestamp). The goals of a later state that were there before are its last ones: the
  query puts a new document first.
\<close>

definition spec_invariant :: "store \<Rightarrow> bool" where
  "spec_invariant s = list_all (\<lambda>d. spec_nonneg (current d)) (goalsColl s)"

fun ts_le :: "int option \<Rightarrow> int option \<Rightarrow> bool" where
  "ts_le None y = True"
| "ts_le (Some a) None = False"
| "ts_le (Some a) (Some b) = (a \<le> b)"

definition spec_lastReset_mono :: "goaldoc list \<Rightarrow> goaldoc list \<Rightarrow> bool" where
  "spec_lastReset_mono ds ds' =
     list_all2 (\<lambda>d d'. gid d' = gid d \<and> ts_le (lastReset d) (lastReset d')) ds ds'"

definition existingGoals :: "store \<Rightarrow> store \<Rightarrow> goaldoc list" where
  "existingGoals s s' = drop (length (goalsColl s') - length (goalsColl s)) (goalsColl s')"

text \<open>The server clock is not behind the timestamps it has put into the documents.\<close>

definition clockAhead :: "env \<Rightarrow> store \<Rightarrow> bool" where
  "clockAhead E s = list_all (\<lambda>d. ts_le (lastReset d) (Some (srv E))) (goalsColl s)"

text \<open>
  Two relations for the proofs. A document is \<open>patched\<close> when it is the old one with data
  satisfying \<open>P\<close> applied. From \<open>s\<close> to \<open>s'\<close> the engine \<open>wrote\<close> when the only store calls
  issued are reads and writes of such data to documents with an id in \<open>M\<close>, every document
  is patched, and the documents with an id outside \<open>M\<close> are as they were.
\<close>

definition patched :: "(patch \<Rightarrow> bool) \<Rightarrow> goaldoc \<Rightarrow> goaldoc \<Rightarrow> bool" where
  "patched P d d' = (\<exists>ps. list_all P ps \<and> d' = foldl (\<lambda>x p. applyPatch p x) d ps)"

definition wrote :: "string set \<Rightarrow> (patch \<Rightarrow> bool) \<Rightarrow> store \<Rightarrow> store \<Rightarrow> bool" where
  "wrote M P s s' =
     ((\<exists>cs. calls s' = calls s @ cs
            \<and> (\<forall>c \<in> set cs. c = GetDocs \<or> (\<exists>i \<in> M. \<exists>p. P p \<and> c = UpdateDoc i p)))
      \<and> list_all2 (\<lambda>d d'. patched P d d' \<and> (gid d \<notin> M \<longrightarrow> d' = d)) (goalsColl s) (goalsColl s'))"

text \<open>The data the engine writes: a \<open>current\<close> that is \<open>\<ge> 0\<close>, a \<open>lastReset\<close> that is the server's now.\<close>

definition enginePatch :: "env \<Rightarrow> patch \<Rightarrow> bool" where
  "enginePatch E p =
     ((case pcurrent p of None \<Rightarrow> True | Some v \<Rightarrow> spec_nonneg v)
      \<and> (case plastReset p of None \<Rightarrow> True | Some t \<Rightarrow> t = srv E))"


text \<open>The writes the loop of \<^verbatim>\<open>updateGoalsProgress\<close> attempts for a fetched goal.\<close>

definition loopPatches :: "env \<Rightarrow> jsval \<Rightarrow> goal \<Rightarrow> patch list" where
  "loopPatches E amount goal =
     (if checkGoalNeedsReset E goal
      then [Patch (Some (JNum (Fin 0))) (Some (srv E)),
            Patch (Some (js_plus (num2str E) (JNum (Fin 0)) amount)) None]
      else [Patch (Some (js_plus (num2str E) (js_or (current goal) (JNum (Fin 0))) amount)) None])"

section \<open>Example data\<close>

text \<open>
  A client three hours behind UTC. Monday 1 January 2024 is day 19723; the instants are
  that Monday at 10:00 and at 15:00 local time, Tuesday at 09:00 and the Sunday of the same
  week at 12:00 local time. The store of the examples rejects nothing, or the writes to one
  document. \<open>render\<close> stands in for the rendering of Numbers, which no example depends on.
\<close>

definition noFailure :: "call list \<Rightarrow> call \<Rightarrow> bool" where
  "noFailure h c = False"


fun render :: "jsnum \<Rightarrow> string" where
  "render NaN = ''NaN''"
| "render PosInf = ''Infinity''"
| "render NegInf = ''-Infinity''"
| "render (Fin r) = ''#''"

definition monday10 :: int where
  "monday10 = 1704114000000"

definition monday15 :: int where
  "monday15 = 1704132000000"

definition tuesday09 :: int where
  "tuesday09 = 1704196800000"


definition envAt :: "int \<Rightarrow> env" where
  "envAt t = \<lparr>tza = - 10800000, now = t, srv = t, fails = noFailure, num2str = render\<rparr>"

definition goalA :: goaldoc where
  "goalA = \<lparr>gid = ''A'', name = JStr ''Meta diaria'', category = JStr ''Receita '',
            gtype = JStr ''daily'', target = JNum (Fin 200), current = JNum (Fin 50),
            createdAt = monday10, lastReset = Some monday10\<rparr>"

definition goalB :: goaldoc where
  "goalB = \<lparr>gid = ''B'', name = JStr ''Corridas'', category = JStr ''corridas'',
            gtype = JStr ''weekly'', target = JNum (Fin 30), current = JNum (Fin 7),
            createdAt = monday10, lastReset = Some monday10\<rparr>"

definition goalC :: goaldoc where
  "goalC = \<lparr>gid = ''C'', name = JStr ''Sem valor'', category = JStr ''receita'',
            gtype = JStr ''monthly'', target = JNum (Fin 900), current = JUndefined,
            createdAt = monday10, lastReset = Some monday10\<rparr>"

definition storeOf :: "goaldoc list \<Rightarrow> store" where
  "storeOf ds = \<lparr>currentUser = Some ''u1'', goalsColl = ds, calls = [], console_error = []\<rparr>"


section \<open>The time-window calculators\<close>













section \<open>The reset test\<close>



section \<open>Validation\<close>

text \<open>
  C3, as the specification states it, fails on the code: an amount of \<open>+Infinity\<close> is not a
  finite positive number, yet it passes the validation of \<^verbatim>\<open>updateGoalsProgress\<close>
  (\<^verbatim>\<open>typeof amount !== 'number' || amount <= 0 || isNaN(amount)\<close> is false for it), the
  store is called and the matching goal is written.
\<close>

theorem updateGoalsProgress_accepts_infinity:
  "\<not> spec_validAmount (JNum PosInf)
   \<and> updateGoalsProgress (envAt monday15) (JNum PosInf) (JStr ''receita'') (storeOf [goalA])
     = (Inr (),
        \<lparr>currentUser = Some ''u1'',
         goalsColl = [goalA\<lparr>current := JNum PosInf\<rparr>],
         calls = [GetDocs, UpdateDoc ''A'' (Patch (Some (JNum PosInf)) None)],
         console_error = []\<rparr>)"
  by code_simp

text \<open>
  C3, amended. For every category that is empty or not a string, whatever the amount, and
  for every amount that is not a Number, is NaN, or is zero or negative (\<open>-Infinity\<close>
  included), \<^verbatim>\<open>updateGoalsProgress\<close> fails validation: it returns after writing the error
  to the console, with no store call and every goal as it was. (\<open>+Infinity\<close> is the one value
  that is not a finite positive number and is not rejected.)
\<close>

theorem updateGoalsProgress_rejects:
  assumes "\<not> spec_validCategory c \<or> (\<not> spec_validAmount a \<and> a \<noteq> JNum PosInf)"
  shows "updateGoalsProgress E a c s =
           (Inr (), s\<lparr>console_error := console_error s @
                        [if \<not> spec_validCategory c then ''ERRO: categoria invalida:''
                         else ''ERRO: valor invalido:'']\<rparr>)
         \<and> calls (snd (updateGoalsProgress E a c s)) = calls s
         \<and> goalsColl (snd (updateGoalsProgress E a c s)) = goalsColl s"
proof -
  have cat: "spec_validCategory c \<longleftrightarrow> \<not> (\<not> truthy c \<or> typeof c \<noteq> TString)"
    by (cases c) auto
  have amt: "a \<noteq> JNum PosInf \<Longrightarrow>
             spec_validAmount a \<longleftrightarrow>
               \<not> (typeof a \<noteq> TNumber \<or> (case a of JNum n \<Rightarrow> num_le0 n \<or> isNaN n | _ \<Rightarrow> True))"
  proof (cases a)
    case (JNum n)
    assume "a \<noteq> JNum PosInf"
    with JNum show ?thesis by (cases n) auto
  qed auto
  show ?thesis
  proof (cases "spec_validCategory c")
    case False
    with cat show ?thesis by (simp add: updateGoalsProgress_def)
  next
    case True
    with assms have "\<not> spec_validAmount a" "a \<noteq> JNum PosInf" by auto
    with amt True cat show ?thesis by (simp add: updateGoalsProgress_def)
  qed
qed

theorem updateGoalsProgress_rejects_witness:
  "updateGoalsProgress (envAt monday15) (JNum (Fin 0)) (JStr ''receita'') (storeOf [goalA])
     = (Inr (), (storeOf [goalA])\<lparr>console_error := [''ERRO: valor invalido:'']\<rparr>)
   \<and> updateGoalsProgress (envAt monday15) (JNum (Fin (- 5))) (JStr ''receita'') (storeOf [goalA])
     = (Inr (), (storeOf [goalA])\<lparr>console_error := [''ERRO: valor invalido:'']\<rparr>)
   \<and> updateGoalsProgress (envAt monday15) (JNum NaN) (JStr ''receita'') (storeOf [goalA])
     = (Inr (), (storeOf [goalA])\<lparr>console_error := [''ERRO: valor invalido:'']\<rparr>)
   \<and> updateGoalsProgress (envAt monday15) (JNum (Fin 20)) (JStr []) (storeOf [goalA])
     = (Inr (), (storeOf [goalA])\<lparr>console_error := [''ERRO: categoria invalida:'']\<rparr>)"
  using updateGoalsProgress_rejects [of "JStr ''receita''" "JNum (Fin 0)" "envAt monday15" "storeOf [goalA]"]
        updateGoalsProgress_rejects [of "JStr ''receita''" "JNum (Fin (- 5))" "envAt monday15" "storeOf [goalA]"]
        updateGoalsProgress_rejects [of "JStr ''receita''" "JNum NaN" "envAt monday15" "storeOf [goalA]"]
        updateGoalsProgress_rejects [of "JStr []" "JNum (Fin 20)" "envAt monday15" "storeOf [goalA]"]
  by (simp add: storeOf_def)

section \<open>The accrual loop when every write succeeds\<close>

lemma gid_applyPatch [simp]: "gid (applyPatch p d) = gid d"
  by (simp add: applyPatch_def)

lemma gid_toGoal [simp]: "gid (toGoal E d) = gid d"
  by (simp add: toGoal_def)

lemma current_toGoal [simp]: "current (toGoal E d) = current d"
  by (simp add: toGoal_def)

lemma categoryString_toGoal [simp]: "categoryString E (toGoal E d) = categoryString E d"
  by (simp add: toGoal_def categoryString_def)

lemma gid_accrued [simp]: "gid (accrued E a d) = gid d"
  by (simp add: accrued_def)








section \<open>Normalisation of categories\<close>




section \<open>Accrual\<close>








section \<open>Which goals are credited\<close>






section \<open>What any run of the engine can write\<close>

lemma patched_refl: "patched P d d"
  unfolding patched_def by (rule exI [of _ "[]"]) simp

lemma patched_step: "P p \<Longrightarrow> patched P d (applyPatch p d)"
  unfolding patched_def by (rule exI [of _ "[p]"]) simp

lemma patched_trans: "patched P a b \<Longrightarrow> patched P b c \<Longrightarrow> patched P a c"
proof -
  assume "patched P a b" "patched P b c"
  then obtain ps qs where "list_all P ps" "b = foldl (\<lambda>x p. applyPatch p x) a ps"
    "list_all P qs" "c = foldl (\<lambda>x p. applyPatch p x) b qs"
    unfolding patched_def by blast
  then have "list_all P (ps @ qs) \<and> c = foldl (\<lambda>x p. applyPatch p x) a (ps @ qs)"
    by simp
  then show ?thesis unfolding patched_def by blast
qed

lemma gid_foldl_applyPatch: "gid (foldl (\<lambda>x p. applyPatch p x) d ps) = gid d"
  by (induction ps arbitrary: d) simp_all

lemma gid_patched: "patched P d d' \<Longrightarrow> gid d' = gid d"
  unfolding patched_def using gid_foldl_applyPatch by blast

lemma wrote_refl: "wrote M P s s"
  unfolding wrote_def by (simp add: list_all2_same patched_refl)

lemma wrote_read: "wrote M P s (s\<lparr>calls := calls s @ [GetDocs]\<rparr>)"
  unfolding wrote_def by (simp add: list_all2_same patched_refl)

lemma wrote_trans:
  assumes "wrote M P s s'" "wrote M P s' s''"
  shows "wrote M P s s''"
proof -
  let ?R = "\<lambda>d d'. patched P d d' \<and> (gid d \<notin> M \<longrightarrow> d' = d)"
  from assms obtain cs cs' where
    c: "calls s' = calls s @ cs" "calls s'' = calls s' @ cs'"
       "\<forall>c \<in> set cs. c = GetDocs \<or> (\<exists>i \<in> M. \<exists>p. P p \<and> c = UpdateDoc i p)"
       "\<forall>c \<in> set cs'. c = GetDocs \<or> (\<exists>i \<in> M. \<exists>p. P p \<and> c = UpdateDoc i p)"
    unfolding wrote_def by blast
  have 1: "calls s'' = calls s @ (cs @ cs')"
    using c by simp
  have 2: "\<forall>c \<in> set (cs @ cs'). c = GetDocs \<or> (\<exists>i \<in> M. \<exists>p. P p \<and> c = UpdateDoc i p)"
    using c by auto
  have l: "list_all2 ?R (goalsColl s) (goalsColl s')" "list_all2 ?R (goalsColl s') (goalsColl s'')"
    using assms unfolding wrote_def by blast+
  have step: "\<And>a b c. ?R a b \<Longrightarrow> ?R b c \<Longrightarrow> ?R a c"
    using patched_trans gid_patched by metis
  have 3: "list_all2 ?R (goalsColl s) (goalsColl s'')"
    by (rule list_all2_trans [OF _ l]) (use step in blast)
  show ?thesis
    unfolding wrote_def using 1 2 3 by blast
qed

lemma wrote_mono: "M \<subseteq> M' \<Longrightarrow> wrote M P s s' \<Longrightarrow> wrote M' P s s'"
  unfolding wrote_def
  by (elim conjE exE, intro conjI exI, assumption, blast, erule list_all2_mono, blast)

lemma updateDoc_wrote:
  assumes "P p"
  shows "wrote {i} P s (snd (updateDoc E i p s))"
proof -
  let ?f = "\<lambda>d. if gid d = i then applyPatch p d else d"
  have "list_all2 (\<lambda>d d'. patched P d d' \<and> (gid d \<notin> {i} \<longrightarrow> d' = d))
          (goalsColl s) (map ?f (goalsColl s))"
    using assms by (simp add: list_all2_map2 list_all2_same patched_refl patched_step)
  then show ?thesis
    using assms unfolding wrote_def updateDoc_def
    by (simp add: Let_def list_all2_same patched_refl)
qed

lemma resetGoal_wrote:
  assumes "P (Patch (Some (JNum (Fin 0))) (Some (srv E)))"
  shows "wrote {i} P s (snd (resetGoal E i s))"
  using assms wrote_refl [of "{i}" P s]
    updateDoc_wrote [where P = P and i = i and s = s and E = E
                       and p = "Patch (Some (JNum (Fin 0))) (Some (srv E))"]
  by (simp add: resetGoal_def split: option.splits)

lemma updateGoal_wrote:
  assumes "P p"
  shows "wrote {i} P s (snd (updateGoal E i p s))"
proof (cases "currentUser s")
  case None
  then show ?thesis by (simp add: updateGoal_def wrote_refl)
next
  case (Some u)
  obtain r s1 where u: "updateDoc E i p s = (r, s1)" by (cases "updateDoc E i p s")
  then have "wrote {i} P s s1"
    using assms updateDoc_wrote [where P = P and i = i and s = s and E = E and p = p] by simp
  then show ?thesis
    using Some u by (cases r) (simp_all add: updateGoal_def)
qed

lemma progressLoop_wrote:
  assumes "\<forall>g \<in> set gs. goalCat E g = tc \<longrightarrow> list_all P (loopPatches E a g)"
  shows "wrote (gid ` {g \<in> set gs. goalCat E g = tc}) P s (snd (progressLoop E a tc gs s))"
  using assms
proof (induction gs arbitrary: s)
  case Nil
  then show ?case by (simp add: wrote_refl)
next
  case (Cons g gs)
  let ?M = "gid ` {x \<in> set (g # gs). goalCat E x = tc}"
  have sub: "gid ` {x \<in> set gs. goalCat E x = tc} \<subseteq> ?M"
    by auto
  have ih: "\<And>s'. wrote ?M P s' (snd (progressLoop E a tc gs s'))"
    using Cons.IH Cons.prems wrote_mono [OF sub] by simp
  show ?case
  proof (cases "goalCat E g = tc")
    case False
    then show ?thesis using ih [of s] by simp
  next
    case True
    then have one: "{gid g} \<subseteq> ?M" by auto
    have pats: "list_all P (loopPatches E a g)"
      using Cons.prems True by simp
    define nv where "nv = js_plus (num2str E)
       (if checkGoalNeedsReset E g then JNum (Fin 0) else js_or (current g) (JNum (Fin 0))) a"
    have p2: "P (Patch (Some nv) None)"
      using pats unfolding nv_def loopPatches_def by (simp split: if_splits)
    obtain r1 s1 where r1: "(if checkGoalNeedsReset E g then resetGoal E (gid g) s else (Inr (), s))
                             = (r1, s1)"
      by (cases "if checkGoalNeedsReset E g then resetGoal E (gid g) s else (Inr (), s)")
    have w1: "wrote ?M P s s1"
    proof (cases "checkGoalNeedsReset E g")
      case True
      then have "P (Patch (Some (JNum (Fin 0))) (Some (srv E)))"
        using pats unfolding loopPatches_def by simp
      with resetGoal_wrote [where P = P and E = E and i = "gid g" and s = s] r1 True
      show ?thesis
        using wrote_mono [OF one] by simp
    next
      case False
      then show ?thesis using r1 wrote_refl by simp
    qed
    obtain r2 s2 where r2: "updateGoal E (gid g) (Patch (Some nv) None) s1 = (r2, s2)"
      by (cases "updateGoal E (gid g) (Patch (Some nv) None) s1")
    have w2: "wrote ?M P s s2"
      using p2 r2 wrote_mono [OF one] wrote_trans [OF w1]
        updateGoal_wrote [where P = P and E = E and i = "gid g" and s = s1
                            and p = "Patch (Some nv) None"]
      by simp
    have w3: "wrote ?M P s (snd (progressLoop E a tc gs s2))"
      using wrote_trans [OF w2 ih [of s2]] .
    have res: "snd (progressLoop E a tc (g # gs) s) =
               (case r1 of Inl e \<Rightarrow> s1
                | Inr u \<Rightarrow> (case r2 of Inl e \<Rightarrow> s2 | Inr b \<Rightarrow> snd (progressLoop E a tc gs s2)))"
    proof (cases "checkGoalNeedsReset E g")
      case True
      with \<open>goalCat E g = tc\<close> r1 r2 show ?thesis
        unfolding nv_def by (auto simp add: Let_def split: sum.splits)
    next
      case False
      with \<open>goalCat E g = tc\<close> r1 r2 show ?thesis
        unfolding nv_def by (auto simp add: Let_def split: sum.splits)
    qed
    show ?thesis
      unfolding res using w1 w2 w3 by (simp split: sum.splits)
  qed
qed

lemma resetLoop_wrote:
  assumes "P (Patch (Some (JNum (Fin 0))) (Some (srv E)))"
  shows "wrote (gid ` {g \<in> set gs. checkGoalNeedsReset E g}) P s (snd (resetLoop E gs s))"
proof (induction gs arbitrary: s)
  case Nil
  then show ?case by (simp add: wrote_refl)
next
  case (Cons g gs)
  let ?M = "gid ` {x \<in> set (g # gs). checkGoalNeedsReset E x}"
  have sub: "gid ` {x \<in> set gs. checkGoalNeedsReset E x} \<subseteq> ?M"
    by auto
  have ih: "\<And>s'. wrote ?M P s' (snd (resetLoop E gs s'))"
    using Cons.IH wrote_mono [OF sub] by simp
  show ?case
  proof (cases "checkGoalNeedsReset E g")
    case False
    then show ?thesis using ih [of s] by simp
  next
    case True
    then have one: "{gid g} \<subseteq> ?M" by auto
    obtain r1 s1 where r1: "resetGoal E (gid g) s = (r1, s1)"
      by (cases "resetGoal E (gid g) s")
    have w1: "wrote ?M P s s1"
      using assms r1 wrote_mono [OF one]
        resetGoal_wrote [where P = P and E = E and i = "gid g" and s = s]
      by simp
    have w2: "wrote ?M P s (snd (resetLoop E gs s1))"
      using wrote_trans [OF w1 ih [of s1]] .
    show ?thesis
      using True r1 w1 w2 by (simp split: sum.splits)
  qed
qed

lemma wrote_console: "wrote M P s (s\<lparr>console_error := x\<rparr>)"
  unfolding wrote_def by (simp add: list_all2_same patched_refl)

lemma updateGoalsProgress_wrote:
  assumes "\<And>n. a = JNum n \<Longrightarrow> \<not> num_le0 n \<Longrightarrow> \<not> isNaN n \<Longrightarrow>
             \<forall>d \<in> set (goalsColl s). list_all P (loopPatches E a (toGoal E d))"
  shows "wrote (gid ` {d \<in> set (goalsColl s).
                        goalCat E (toGoal E d) = trim (toLowerCase (ToString (num2str E) c))})
           P s (snd (updateGoalsProgress E a c s))"
proof -
  let ?tc = "trim (toLowerCase (ToString (num2str E) c))"
  let ?M = "gid ` {d \<in> set (goalsColl s). goalCat E (toGoal E d) = ?tc}"
  let ?rej = "(\<not> truthy c \<or> typeof c \<noteq> TString)
              \<or> (typeof a \<noteq> TNumber \<or> (case a of JNum n \<Rightarrow> num_le0 n \<or> isNaN n | _ \<Rightarrow> True))"
  show ?thesis
  proof (cases ?rej)
    case True
    then show ?thesis
      by (auto simp add: updateGoalsProgress_def wrote_console)
  next
    case False
    then obtain n where n: "a = JNum n" "\<not> num_le0 n" "\<not> isNaN n"
      by (cases a) auto
    have pats: "\<forall>g \<in> set (map (toGoal E) (goalsColl s)).
                  goalCat E g = ?tc \<longrightarrow> list_all P (loopPatches E a g)"
      using assms [OF n] by simp
    have sub: "gid ` {g \<in> set (map (toGoal E) (goalsColl s)). goalCat E g = ?tc} \<subseteq> ?M"
      by auto
    have loop: "\<And>s1. goalsColl s1 = goalsColl s \<Longrightarrow> wrote ?M P s1
                  (snd (progressLoop E a ?tc (map (toGoal E) (goalsColl s)) s1))"
      using progressLoop_wrote [OF pats] wrote_mono [OF sub] by blast
    show ?thesis
    proof (cases "currentUser s")
      case None
      with False show ?thesis
        by (simp add: updateGoalsProgress_def getGoals_def wrote_refl)
    next
      case (Some u)
      let ?s1 = "s\<lparr>calls := calls s @ [GetDocs]\<rparr>"
      have w1: "wrote ?M P s ?s1" by (rule wrote_read)
      show ?thesis
      proof (cases "fails E (calls s) GetDocs")
        case True
        with False Some w1 show ?thesis
          by (simp add: updateGoalsProgress_def getGoals_def)
      next
        case nf: False
        have "wrote ?M P s (snd (progressLoop E a ?tc (map (toGoal E) (goalsColl s)) ?s1))"
          using wrote_trans [OF w1 loop [of ?s1]] by simp
        with False Some nf show ?thesis
          by (simp add: updateGoalsProgress_def getGoals_def)
      qed
    qed
  qed
qed

lemma checkAndResetGoals_wrote:
  assumes "P (Patch (Some (JNum (Fin 0))) (Some (srv E)))"
  shows "wrote (gid ` {d \<in> set (goalsColl s). checkGoalNeedsReset E (toGoal E d)})
           P s (snd (checkAndResetGoals E s))"
proof -
  let ?M = "gid ` {d \<in> set (goalsColl s). checkGoalNeedsReset E (toGoal E d)}"
  have sub: "gid ` {g \<in> set (map (toGoal E) (goalsColl s)). checkGoalNeedsReset E g} \<subseteq> ?M"
    by auto
  have loop: "\<And>s1. wrote ?M P s1 (snd (resetLoop E (map (toGoal E) (goalsColl s)) s1))"
    using assms wrote_mono [OF sub]
      resetLoop_wrote [where P = P and E = E and gs = "map (toGoal E) (goalsColl s)"]
    by blast
  show ?thesis
  proof (cases "currentUser s")
    case None
    then show ?thesis
      by (simp add: checkAndResetGoals_def getGoals_def wrote_refl)
  next
    case (Some u)
    let ?s1 = "s\<lparr>calls := calls s @ [GetDocs]\<rparr>"
    have w1: "wrote ?M P s ?s1" by (rule wrote_read)
    show ?thesis
    proof (cases "fails E (calls s) GetDocs")
      case True
      with Some w1 show ?thesis
        by (simp add: checkAndResetGoals_def getGoals_def)
    next
      case False
      have "wrote ?M P s (snd (resetLoop E (map (toGoal E) (goalsColl s)) ?s1))"
        using wrote_trans [OF w1 loop [of ?s1]] by simp
      with Some False show ?thesis
        by (simp add: checkAndResetGoals_def getGoals_def)
    qed
  qed
qed


section \<open>Goals of another category\<close>



section \<open>The invariant of the data model\<close>

lemma foldl_enginePatch:
  "list_all (enginePatch E) ps \<Longrightarrow>
   (spec_nonneg (current d) \<longrightarrow> spec_nonneg (current (foldl (\<lambda>x p. applyPatch p x) d ps)))
   \<and> (lastReset (foldl (\<lambda>x p. applyPatch p x) d ps) = lastReset d
      \<or> lastReset (foldl (\<lambda>x p. applyPatch p x) d ps) = Some (srv E))"
proof (induction ps arbitrary: d)
  case Nil
  then show ?case by simp
next
  case (Cons p ps)
  have p: "enginePatch E p" and ps: "list_all (enginePatch E) ps"
    using Cons.prems by simp_all
  have c1: "spec_nonneg (current d) \<longrightarrow> spec_nonneg (current (applyPatch p d))"
    using p by (simp add: enginePatch_def applyPatch_def split: option.splits)
  have l1: "lastReset (applyPatch p d) = lastReset d \<or> lastReset (applyPatch p d) = Some (srv E)"
    using p by (simp add: enginePatch_def applyPatch_def split: option.splits)
  from Cons.IH [OF ps, of "applyPatch p d"] c1 l1 show ?case
    by auto
qed

lemma ts_le_refl: "ts_le x x"
  by (cases x) simp_all

lemma patched_engine:
  assumes "patched (enginePatch E) d d'"
      and "spec_nonneg (current d)" "ts_le (lastReset d) (Some (srv E))"
  shows "spec_nonneg (current d')" "ts_le (lastReset d') (Some (srv E))"
        "gid d' = gid d" "ts_le (lastReset d) (lastReset d')"
proof -
  from assms(1) obtain ps where ps: "list_all (enginePatch E) ps"
      "d' = foldl (\<lambda>x p. applyPatch p x) d ps"
    unfolding patched_def by blast
  note f = foldl_enginePatch [OF ps(1), of d]
  show "spec_nonneg (current d')" using f assms(2) ps(2) by simp
  show "gid d' = gid d" using ps(2) by (simp add: gid_foldl_applyPatch)
  have l: "lastReset d' = lastReset d \<or> lastReset d' = Some (srv E)"
    using f ps(2) by simp
  then show "ts_le (lastReset d') (Some (srv E))"
    using assms(3) by auto
  from l show "ts_le (lastReset d) (lastReset d')"
    using assms(3) ts_le_refl by auto
qed

lemma wrote_invariant:
  assumes w: "wrote M (enginePatch E) s s'"
      and inv: "spec_invariant s" and clk: "clockAhead E s"
  shows "spec_invariant s' \<and> clockAhead E s'
         \<and> spec_lastReset_mono (goalsColl s) (existingGoals s s')"
proof -
  let ?R = "\<lambda>d d'. patched (enginePatch E) d d' \<and> (gid d \<notin> M \<longrightarrow> d' = d)"
  have l: "list_all2 ?R (goalsColl s) (goalsColl s')"
    using w unfolding wrote_def by blast
  then have len: "length (goalsColl s') = length (goalsColl s)"
    by (simp add: list_all2_lengthD)
  have pre: "\<And>k. k < length (goalsColl s) \<Longrightarrow>
               spec_nonneg (current (goalsColl s ! k))
               \<and> ts_le (lastReset (goalsColl s ! k)) (Some (srv E))"
    using inv clk by (simp add: spec_invariant_def clockAhead_def list_all_length)
  have post: "\<And>k. k < length (goalsColl s) \<Longrightarrow>
               spec_nonneg (current (goalsColl s' ! k))
               \<and> ts_le (lastReset (goalsColl s' ! k)) (Some (srv E))
               \<and> gid (goalsColl s' ! k) = gid (goalsColl s ! k)
               \<and> ts_le (lastReset (goalsColl s ! k)) (lastReset (goalsColl s' ! k))"
  proof -
    fix k assume k: "k < length (goalsColl s)"
    from list_all2_nthD [OF l k]
    have p: "patched (enginePatch E) (goalsColl s ! k) (goalsColl s' ! k)" by simp
    from patched_engine [OF p] pre [OF k]
    show "spec_nonneg (current (goalsColl s' ! k))
               \<and> ts_le (lastReset (goalsColl s' ! k)) (Some (srv E))
               \<and> gid (goalsColl s' ! k) = gid (goalsColl s ! k)
               \<and> ts_le (lastReset (goalsColl s ! k)) (lastReset (goalsColl s' ! k))"
      by blast
  qed
  have 1: "spec_invariant s'"
    using post len by (simp add: spec_invariant_def list_all_length)
  have 2: "clockAhead E s'"
    using post len by (simp add: clockAhead_def list_all_length)
  have 3: "spec_lastReset_mono (goalsColl s) (existingGoals s s')"
    using post len
    by (simp add: spec_lastReset_mono_def existingGoals_def list_all2_conv_all_nth)
  from 1 2 3 show ?thesis by blast
qed

lemma resetPatch_engine: "enginePatch E (Patch (Some (JNum (Fin 0))) (Some (srv E)))"
  by (simp add: enginePatch_def)

lemma accrual_nonneg:
  "\<not> num_le0 n \<Longrightarrow> \<not> isNaN n \<Longrightarrow> spec_nonneg v \<Longrightarrow>
   spec_nonneg (js_plus nts (js_or v (JNum (Fin 0))) (JNum n))"
  by (cases v rule: spec_nonneg.cases; cases n) (auto simp add: js_or_def)

lemma accrual_after_reset_nonneg:
  "\<not> num_le0 n \<Longrightarrow> \<not> isNaN n \<Longrightarrow> spec_nonneg (js_plus nts (JNum (Fin 0)) (JNum n))"
  by (cases n) auto

lemma loopPatches_engine:
  assumes "\<not> num_le0 n" "\<not> isNaN n" "spec_nonneg (current d)"
  shows "list_all (enginePatch E) (loopPatches E (JNum n) (toGoal E d))"
  using accrual_nonneg [OF assms, of "num2str E"]
        accrual_after_reset_nonneg [OF assms(1,2), of "num2str E"]
  by (simp add: loopPatches_def enginePatch_def)

lemma addGoal_invariant:
  assumes inv: "spec_invariant s" and clk: "clockAhead E s"
  shows "spec_invariant (snd (addGoal E newId g s)) \<and> clockAhead E (snd (addGoal E newId g s))
         \<and> spec_lastReset_mono (goalsColl s) (existingGoals s (snd (addGoal E newId g s)))"
proof -
  have same: "spec_lastReset_mono (goalsColl s) (goalsColl s)"
    by (simp add: spec_lastReset_mono_def list_all2_same ts_le_refl)
  show ?thesis
    using inv clk same
    by (auto simp add: addGoal_def Let_def spec_invariant_def clockAhead_def existingGoals_def
             split: option.splits)
qed

text \<open>
  C9. Take a state in which every goal has a Number \<open>current \<ge> 0\<close>, and a server clock that is
  not behind the \<open>lastReset\<close> stamps already stored. Then after each operation of the engine
  (\<^verbatim>\<open>addGoal\<close>, \<^verbatim>\<open>updateGoalsProgress\<close> with any arguments, \<^verbatim>\<open>resetGoal\<close> of any id,
  \<^verbatim>\<open>checkAndResetGoals\<close>), whether its store calls succeed or fail, every goal still has
  \<open>current \<ge> 0\<close>, the \<open>lastReset\<close> of every goal that was there is not earlier than before, and
  the clock is still not behind the stamps.
\<close>

theorem engine_preserves_invariant:
  assumes "spec_invariant s" and "clockAhead E s"
  shows "(spec_invariant (snd (addGoal E newId g s))
          \<and> clockAhead E (snd (addGoal E newId g s))
          \<and> spec_lastReset_mono (goalsColl s) (existingGoals s (snd (addGoal E newId g s))))
       \<and> (spec_invariant (snd (updateGoalsProgress E a c s))
          \<and> clockAhead E (snd (updateGoalsProgress E a c s))
          \<and> spec_lastReset_mono (goalsColl s) (existingGoals s (snd (updateGoalsProgress E a c s))))
       \<and> (spec_invariant (snd (resetGoal E i s))
          \<and> clockAhead E (snd (resetGoal E i s))
          \<and> spec_lastReset_mono (goalsColl s) (existingGoals s (snd (resetGoal E i s))))
       \<and> (spec_invariant (snd (checkAndResetGoals E s))
          \<and> clockAhead E (snd (checkAndResetGoals E s))
          \<and> spec_lastReset_mono (goalsColl s) (existingGoals s (snd (checkAndResetGoals E s))))"
proof -
  have cur: "\<forall>d \<in> set (goalsColl s). spec_nonneg (current d)"
    using assms(1) by (simp add: spec_invariant_def list_all_iff)
  have w2: "wrote (gid ` {d \<in> set (goalsColl s).
                           goalCat E (toGoal E d) = trim (toLowerCase (ToString (num2str E) c))})
              (enginePatch E) s (snd (updateGoalsProgress E a c s))"
    by (rule updateGoalsProgress_wrote) (use cur loopPatches_engine in blast)
  have w3: "wrote {i} (enginePatch E) s (snd (resetGoal E i s))"
    using resetPatch_engine [of E]
      resetGoal_wrote [where P = "enginePatch E" and E = E and i = i and s = s]
    by simp
  have w4: "wrote (gid ` {d \<in> set (goalsColl s). checkGoalNeedsReset E (toGoal E d)})
              (enginePatch E) s (snd (checkAndResetGoals E s))"
    using resetPatch_engine [of E]
      checkAndResetGoals_wrote [where P = "enginePatch E" and E = E and s = s]
    by simp
  show ?thesis
    using addGoal_invariant [OF assms] wrote_invariant [OF w2 assms]
      wrote_invariant [OF w3 assms] wrote_invariant [OF w4 assms]
    by blast
qed

theorem engine_preserves_invariant_witness:
  "spec_invariant (storeOf [goalA, goalB]) \<and> clockAhead (envAt tuesday09) (storeOf [goalA, goalB])
   \<and> spec_invariant (snd (updateGoalsProgress (envAt tuesday09) (JNum (Fin 20)) (JStr ''receita'')
        (storeOf [goalA, goalB])))
   \<and> spec_lastReset_mono (goalsColl (storeOf [goalA, goalB]))
        (existingGoals (storeOf [goalA, goalB])
           (snd (checkAndResetGoals (envAt tuesday09) (storeOf [goalA, goalB]))))"
proof -
  have h1: "spec_invariant (storeOf [goalA, goalB])" by code_simp
  have h2: "clockAhead (envAt tuesday09) (storeOf [goalA, goalB])" by code_simp
  show ?thesis
    using engine_preserves_invariant [OF h1 h2, of "''N''" goalC "JNum (Fin 20)" "JStr ''receita''" "''A''"]
      h1 h2
    by blast
qed

section \<open>A rejected write\<close>






section \<open>The reset sweep\<close>


lemma gid_swept [simp]: "gid (swept E d) = gid d"
  by (simp add: swept_def)






end
